theory Spec2Isabelle
  imports Main "HOL-Library.Sublist" "HOL-Library.Multiset"
begin

section \<open>The regular expressions of the two scripts\<close>

text \<open>
  Both scripts, \<^verbatim>\<open>tmp/fix-all-patterns.py\<close> and \<^verbatim>\<open>tmp/fix-remaining.py\<close>, rewrite a text
  with Python's \<^verbatim>\<open>re.sub\<close>. Every pattern they use is a sequence of two kinds of item:
  a literal text (\<^verbatim>\<open>expectTypeOf\(\<close>, \<^verbatim>\<open>\)\.toEqualTypeOf<\<close>, ...) and a capturing group around a
  lazy one-or-more repetition of a character class (\<^verbatim>\<open>([^)]+?)\<close>, \<^verbatim>\<open>(.+?)\<close>). The content of a
  file is a \<^typ>\<open>string\<close>; the only characters a pattern tells apart are ASCII ones.

  The character classes: \<^verbatim>\<open>[^)]\<close> is every character but the closing parenthesis, \<^verbatim>\<open>.\<close> is
  every character but the newline, and \<^verbatim>\<open>.\<close> under \<^verbatim>\<open>re.DOTALL\<close> is every character.
\<close>

datatype cls = Any_char | Not_char char

datatype item = Lit string | Group cls

type_synonym pattern = "item list"

fun in_cls :: "cls \<Rightarrow> char \<Rightarrow> bool" where
  "in_cls Any_char c = True"
| "in_cls (Not_char x) c = (c \<noteq> x)"

text \<open>
  \<open>re_match p s\<close> is Python's backtracking match of \<open>p\<close> at the start of \<open>s\<close>: the captured
  groups in order and the text left after the match, or \<open>None\<close>. A lazy group takes one
  character of its class and tries the rest of the pattern; only when that fails does it
  take one more character (\<open>lazy\<close>, with the group's text so far in \<open>acc\<close>).
\<close>

fun re_match :: "pattern \<Rightarrow> string \<Rightarrow> (string list \<times> string) option"
  and lazy :: "cls \<Rightarrow> pattern \<Rightarrow> string \<Rightarrow> string \<Rightarrow> (string list \<times> string) option"
where
  "re_match [] s = Some ([], s)"
| "re_match (Lit l # ps) s =
     (if prefix l s then re_match ps (drop (length l) s) else None)"
| "re_match (Group k # ps) s = lazy k ps [] s"
| "lazy k ps acc [] = None"
| "lazy k ps acc (c # cs) =
     (if in_cls k c
      then (case re_match ps cs of
              Some (caps, rest) \<Rightarrow> Some ((acc @ [c]) # caps, rest)
            | None \<Rightarrow> lazy k ps (acc @ [c]) cs)
      else None)"

text \<open>
  \<open>re_search p s\<close>: whether \<open>p\<close> matches somewhere in \<open>s\<close> (Python's \<^verbatim>\<open>re.search\<close> finds a
  match).
\<close>

fun re_search :: "pattern \<Rightarrow> string \<Rightarrow> bool" where
  "re_search p [] = (case re_match p [] of Some m \<Rightarrow> True | None \<Rightarrow> False)"
| "re_search p (c # cs) =
     (case re_match p (c # cs) of Some m \<Rightarrow> True | None \<Rightarrow> re_search p cs)"

text \<open>
  \<open>re_sub p repl s\<close> is \<^verbatim>\<open>re.sub(p, repl, s)\<close>: scanning from the left, the leftmost match
  is replaced by \<open>repl\<close> of its groups and the scan goes on after the match; a character at
  which the pattern does not match is copied. A match of a pattern with a non-empty
  literal or a group is never empty; for a pattern that matches the empty text Python
  puts the replacement before every character and at the end.
\<close>

fun re_sub :: "pattern \<Rightarrow> (string list \<Rightarrow> string) \<Rightarrow> string \<Rightarrow> string" where
  "re_sub p repl [] = (case re_match p [] of Some (caps, rest) \<Rightarrow> repl caps | None \<Rightarrow> [])"
| "re_sub p repl (c # cs) =
     (case re_match p (c # cs) of
        Some (caps, rest) \<Rightarrow>
          if length rest < length (c # cs) then repl caps @ re_sub p repl rest
          else repl caps @ c # re_sub p repl cs
      | None \<Rightarrow> c # re_sub p repl cs)"

text \<open>
  A replacement template such as \<^verbatim>\<open>r'Ts.Assert.exact.ofAs<\2>().on(\1)'\<close>: literal text and
  references to groups, numbered from 1.
\<close>

datatype tpiece = Txt string | Ref nat

fun group :: "string list \<Rightarrow> nat \<Rightarrow> string" where
  "group caps n = (if 0 < n \<and> n \<le> length caps then caps ! (n - 1) else [])"

fun expand :: "tpiece list \<Rightarrow> string list \<Rightarrow> string" where
  "expand [] caps = []"
| "expand (Txt t # ts) caps = t @ expand ts caps"
| "expand (Ref n # ts) caps = group caps n @ expand ts caps"

subsection \<open>\<^verbatim>\<open>fix-all-patterns.py\<close>: the six rules\<close>

definition all_pattern1 :: pattern where
  "all_pattern1 = [Lit ''expectTypeOf('', Group (Not_char CHR '')''),
     Lit '').toEqualTypeOf('', Group (Not_char CHR '')''), Lit '')'']"

definition all_template1 :: "tpiece list" where
  "all_template1 = [Txt ''Ts.Assert.exact.ofAs<typeof '', Ref 2, Txt ''>().on('', Ref 1, Txt '')'']"

definition all_pattern2 :: pattern where
  "all_pattern2 = [Lit ''expectTypeOf('', Group (Not_char CHR '')''),
     Lit '').toMatchTypeOf<'', Group (Not_char CHR 0x0A), Lit ''>()'']"

definition all_template2 :: "tpiece list" where
  "all_template2 = [Txt ''Ts.Assert.sub.ofAs<'', Ref 2, Txt ''>().on('', Ref 1, Txt '')'']"

definition all_pattern3 :: pattern where
  "all_pattern3 = [Lit ''expectTypeOf<'', Group (Not_char CHR 0x0A),
     Lit ''>().toMatchTypeOf<'', Group (Not_char CHR 0x0A), Lit ''>()'']"

definition all_template3 :: "tpiece list" where
  "all_template3 = [Txt ''Ts.Assert.sub.ofAs<'', Ref 2, Txt ''>().onAs<'', Ref 1, Txt ''>()'']"

definition all_pattern4 :: pattern where
  "all_pattern4 = [Lit ''expectTypeOf<'', Group (Not_char CHR 0x0A),
     Lit ''>().not.toMatchTypeOf<'', Group (Not_char CHR 0x0A), Lit ''>()'']"

definition all_template4 :: "tpiece list" where
  "all_template4 = [Txt ''Ts.Assert.not.sub.ofAs<'', Ref 2, Txt ''>().onAs<'', Ref 1, Txt ''>()'']"

definition all_pattern5 :: pattern where
  "all_pattern5 = [Lit ''expectTypeOf('', Group (Not_char CHR '')''),
     Lit '').toEqualTypeOf<'', Group (Not_char CHR 0x0A), Lit ''>()'']"

definition all_template5 :: "tpiece list" where
  "all_template5 = [Txt ''Ts.Assert.exact.ofAs<'', Ref 2, Txt ''>().on('', Ref 1, Txt '')'']"

definition all_pattern6 :: pattern where
  "all_pattern6 = [Lit ''expectTypeOf<'', Group (Not_char CHR 0x0A),
     Lit ''>().toEqualTypeOf<'', Group (Not_char CHR 0x0A), Lit ''>()'']"

definition all_template6 :: "tpiece list" where
  "all_template6 = [Txt ''Ts.Assert.exact.ofAs<'', Ref 2, Txt ''>().onAs<'', Ref 1, Txt ''>()'']"

text \<open>The six assignments \<^verbatim>\<open>content = re.sub(...)\<close> of \<^verbatim>\<open>fix_file\<close>, in their order.\<close>

definition rewrite_all :: "string \<Rightarrow> string" where
  "rewrite_all content =
     (let content = re_sub all_pattern1 (expand all_template1) content;
          content = re_sub all_pattern2 (expand all_template2) content;
          content = re_sub all_pattern3 (expand all_template3) content;
          content = re_sub all_pattern4 (expand all_template4) content;
          content = re_sub all_pattern5 (expand all_template5) content;
          content = re_sub all_pattern6 (expand all_template6) content
      in content)"

subsection \<open>\<^verbatim>\<open>fix-remaining.py\<close>: the two rules\<close>

definition remaining_pattern1 :: pattern where
  "remaining_pattern1 = [Lit ''expectTypeOf('', Group (Not_char CHR '')''),
     Lit '').toEqualTypeOf<'', Group (Not_char CHR 0x0A), Lit ''>()'']"

definition remaining_template1 :: "tpiece list" where
  "remaining_template1 = [Txt ''Ts.Assert.exact.ofAs<'', Ref 2, Txt ''>().on('', Ref 1, Txt '')'']"

text \<open>The second pattern is compiled with \<^verbatim>\<open>flags=re.DOTALL\<close>: its dots match a newline too.\<close>

definition remaining_pattern2 :: pattern where
  "remaining_pattern2 = [Lit ''expectTypeOf<'', Group Any_char,
     Lit ''>().toEqualTypeOf<'', Group Any_char, Lit ''>()'']"

definition replace_type_only :: "string list \<Rightarrow> string" where
  "replace_type_only m =
     (let actual = group m 1;
          expected = group m 2
      in ''Ts.Assert.exact.ofAs<'' @ expected @ ''>().onAs<'' @ actual @ ''>()'')"

definition rewrite_remaining :: "string \<Rightarrow> string" where
  "rewrite_remaining content =
     (let content = re_sub remaining_pattern1 (expand remaining_template1) content;
          content = re_sub remaining_pattern2 replace_type_only content
      in content)"

section \<open>Files, console and the two programs\<close>

text \<open>
  What the scripts do to their environment: they read and overwrite files and print
  lines. A file on disk has its text, as reading it in text mode returns it, and whether
  it may be read and written; \<open>written\<close> records every write that was carried out, in
  order; \<open>console\<close> holds the printed lines.
  Opening a file can raise; the script's \<^verbatim>\<open>except Exception\<close> sees the exception as a value
  of \<open>error\<close>.
\<close>

type_synonym path = string

datatype error = FileNotFound | ReadError | WriteError

record entry =
  text_of :: string
  readable :: bool
  writable :: bool

text \<open>
  The printed lines: \<^verbatim>\<open>Fixed <path>\<close> after a check mark, \<^verbatim>\<open>  No changes in <path>\<close>,
  \<^verbatim>\<open>Error processing <path>: <error>\<close> and the summary \<^verbatim>\<open>Fixed <n> files\<close>.
\<close>

datatype line =
  Fixed path
| No_changes path
| Error_processing path error
| Fixed_files nat

record world =
  disk :: "path \<rightharpoonup> entry"
  written :: "(path \<times> string) list"
  console :: "line list"

text \<open>\<^verbatim>\<open>with open(filepath, 'r') as f: content = f.read()\<close>\<close>

definition read_file :: "world \<Rightarrow> path \<Rightarrow> error + string" where
  "read_file w filepath =
     (case disk w filepath of
        None \<Rightarrow> Inl FileNotFound
      | Some f \<Rightarrow> if readable f then Inr (text_of f) else Inl ReadError)"

text \<open>
  \<^verbatim>\<open>with open(filepath, 'w') as f: f.write(content)\<close>: the file's text is replaced as a
  whole; a path with no file gets a new one.
\<close>

definition write_file :: "world \<Rightarrow> path \<Rightarrow> string \<Rightarrow> error + world" where
  "write_file w filepath content =
     (case disk w filepath of
        None \<Rightarrow>
          Inr (w\<lparr>disk := (disk w)(filepath \<mapsto> \<lparr>text_of = content, readable = True, writable = True\<rparr>),
                 written := written w @ [(filepath, content)]\<rparr>)
      | Some f \<Rightarrow>
          if writable f
          then Inr (w\<lparr>disk := (disk w)(filepath \<mapsto> f\<lparr>text_of := content\<rparr>),
                      written := written w @ [(filepath, content)]\<rparr>)
          else Inl WriteError)"

definition print :: "world \<Rightarrow> line \<Rightarrow> world" where
  "print w l = w\<lparr>console := console w @ [l]\<rparr>"

text \<open>
  \<^verbatim>\<open>fix_file\<close> of \<^verbatim>\<open>fix-all-patterns.py\<close>: an exception leaves the function (\<open>Inl\<close>); otherwise
  it returns its boolean, and the world after it.
\<close>

definition fix_file_all :: "world \<Rightarrow> path \<Rightarrow> error + (bool \<times> world)" where
  "fix_file_all w filepath =
     (case read_file w filepath of
        Inl e \<Rightarrow> Inl e
      | Inr original \<Rightarrow>
          (let content = rewrite_all original in
           if content \<noteq> original
           then (case write_file w filepath content of
                   Inl e \<Rightarrow> Inl e
                 | Inr w' \<Rightarrow> Inr (True, print w' (Fixed filepath)))
           else Inr (False, print w (No_changes filepath))))"

text \<open>\<^verbatim>\<open>fix_file\<close> of \<^verbatim>\<open>fix-remaining.py\<close>.\<close>

definition fix_file_remaining :: "world \<Rightarrow> path \<Rightarrow> error + (bool \<times> world)" where
  "fix_file_remaining w filepath =
     (case read_file w filepath of
        Inl e \<Rightarrow> Inl e
      | Inr original \<Rightarrow>
          (let content = rewrite_remaining original in
           if content \<noteq> original
           then (case write_file w filepath content of
                   Inl e \<Rightarrow> Inl e
                 | Inr w' \<Rightarrow> Inr (True, print w' (Fixed filepath)))
           else Inr (False, print w (No_changes filepath))))"

text \<open>The list of files, the same in both scripts.\<close>

definition files :: "path list" where
  "files =
     [''src/utils/ts/print.test.ts'',
      ''src/utils/mask/mask.test-d.ts'',
      ''src/domains/str/match.test-d.ts'',
      ''src/utils/err/try.test.ts'',
      ''src/utils/sch/$.test-d.ts'',
      ''src/utils/ts/relation.test.ts'',
      ''src/utils/config-manager/ConfigManager.test.ts'',
      ''src/utils/fs/$.test.ts'',
      ''src/domains/group/$.test.ts'',
      ''src/domains/idx/$.test.ts'',
      ''src/domains/obj/filter.test-d.ts'']"

text \<open>
  The loop of \<^verbatim>\<open>fix-all-patterns.py\<close>, with its \<^verbatim>\<open>try\<close> ... \<^verbatim>\<open>except Exception as e\<close> around
  each file, and the summary after it.
\<close>

fun run_all :: "path list \<Rightarrow> world \<Rightarrow> nat \<Rightarrow> world \<times> nat" where
  "run_all [] w changed = (w, changed)"
| "run_all (filepath # rest) w changed =
     (case fix_file_all w filepath of
        Inr (b, w') \<Rightarrow> run_all rest w' (if b then changed + 1 else changed)
      | Inl e \<Rightarrow> run_all rest (print w (Error_processing filepath e)) changed)"

definition main_all :: "world \<Rightarrow> world" where
  "main_all w = (case run_all files w 0 of (w', changed) \<Rightarrow> print w' (Fixed_files changed))"

text \<open>
  The loop of \<^verbatim>\<open>fix-remaining.py\<close> has no \<^verbatim>\<open>try\<close>: an exception of \<^verbatim>\<open>fix_file\<close> ends the
  program there (\<open>Inl\<close>, with the world as it was left), before the summary.
\<close>

fun run_remaining :: "path list \<Rightarrow> world \<Rightarrow> nat \<Rightarrow> (error \<times> world) + (world \<times> nat)" where
  "run_remaining [] w changed = Inr (w, changed)"
| "run_remaining (filepath # rest) w changed =
     (case fix_file_remaining w filepath of
        Inr (b, w') \<Rightarrow> run_remaining rest w' (if b then changed + 1 else changed)
      | Inl e \<Rightarrow> Inl (e, w))"

definition main_remaining :: "world \<Rightarrow> (error \<times> world) + world" where
  "main_remaining w =
     (case run_remaining files w 0 of
        Inl crash \<Rightarrow> Inl crash
      | Inr (w', changed) \<Rightarrow> Inr (print w' (Fixed_files changed)))"

section \<open>Notions used to state the properties\<close>

text \<open>
  The rules of \<^verbatim>\<open>fix-all-patterns.py\<close> as a list, and a list of rules applied from left to
  right, each to the output of the one before.
\<close>

definition all_rules :: "(pattern \<times> (string list \<Rightarrow> string)) list" where
  "all_rules =
     [(all_pattern1, expand all_template1), (all_pattern2, expand all_template2),
      (all_pattern3, expand all_template3), (all_pattern4, expand all_template4),
      (all_pattern5, expand all_template5), (all_pattern6, expand all_template6)]"


fun apply_rules :: "(pattern \<times> (string list \<Rightarrow> string)) list \<Rightarrow> string \<Rightarrow> string" where
  "apply_rules [] content = content"
| "apply_rules ((p, repl) # rules) content = apply_rules rules (re_sub p repl content)"

text \<open>
  What a call of \<^verbatim>\<open>fix_file\<close> on a path amounts to in a given world: the line the program
  prints for the file, whether the call returns \<^verbatim>\<open>True\<close>, and the file as the call leaves
  it.
\<close>

definition outcome :: "(world \<Rightarrow> path \<Rightarrow> error + (bool \<times> world)) \<Rightarrow> world \<Rightarrow> path \<Rightarrow> line" where
  "outcome fix_file w filepath =
     (case fix_file w filepath of
        Inr (b, w') \<Rightarrow> if b then Fixed filepath else No_changes filepath
      | Inl e \<Rightarrow> Error_processing filepath e)"

definition returns_true :: "(world \<Rightarrow> path \<Rightarrow> error + (bool \<times> world)) \<Rightarrow> world \<Rightarrow> path \<Rightarrow> bool" where
  "returns_true fix_file w filepath =
     (case fix_file w filepath of Inr (b, w') \<Rightarrow> b | Inl e \<Rightarrow> False)"

definition file_after :: "(world \<Rightarrow> path \<Rightarrow> error + (bool \<times> world)) \<Rightarrow> world \<Rightarrow> path \<Rightarrow> entry option" where
  "file_after fix_file w filepath =
     (case fix_file w filepath of Inr (b, w') \<Rightarrow> disk w' filepath | Inl e \<Rightarrow> disk w filepath)"


subsection \<open>Example worlds\<close>

text \<open>
  A checkout in which two of the listed files exist, one with an old assertion and one
  with none; the first file of the list, \<^verbatim>\<open>src/utils/ts/print.test.ts\<close>, is missing.
\<close>

definition example_world :: world where
  "example_world =
     \<lparr>disk =
        [''src/utils/mask/mask.test-d.ts'' \<mapsto>
           \<lparr>text_of = ''expectTypeOf<Foo>().toEqualTypeOf<Bar>()'', readable = True, writable = True\<rparr>,
         ''src/domains/str/match.test-d.ts'' \<mapsto>
           \<lparr>text_of = ''const x = 1'', readable = True, writable = True\<rparr>],
      written = [],
      console = []\<rparr>"

text \<open>
  A checkout in which every path holds a file: \<^verbatim>\<open>src/utils/ts/print.test.ts\<close> has no old
  assertion, every other file has one.
\<close>

definition complete_world :: world where
  "complete_world =
     \<lparr>disk = (\<lambda>filepath. Some
        \<lparr>text_of = (if filepath = ''src/utils/ts/print.test.ts'' then ''const x = 1''
                     else ''expectTypeOf<Foo>().toEqualTypeOf<Bar>()''),
         readable = True, writable = True\<rparr>),
      written = [],
      console = []\<rparr>"

section \<open>Facts about matching and substitution\<close>

lemmas all_rules_defs =
  all_pattern1_def all_pattern2_def all_pattern3_def all_pattern4_def all_pattern5_def
  all_pattern6_def all_template1_def all_template2_def all_template3_def all_template4_def
  all_template5_def all_template6_def

lemmas remaining_rules_defs =
  remaining_pattern1_def remaining_pattern2_def remaining_template1_def replace_type_only_def

lemmas io_defs = read_file_def write_file_def print_def

lemma re_sub_no_match: "\<not> re_search p s \<Longrightarrow> re_sub p repl s = s"
  by (induction s) (auto split: option.splits)

lemma re_search_literal: "re_search (Lit l # ps) s \<Longrightarrow> sublist l s"
proof (induction s)
  case Nil
  then show ?case by (auto split: option.splits if_splits)
next
  case (Cons c cs)
  show ?case
  proof (cases "re_match (Lit l # ps) (c # cs)")
    case None
    with Cons have "sublist l cs" by simp
    then show ?thesis by (simp add: sublist_Cons_right)
  next
    case (Some m)
    then have "prefix l (c # cs)" by (simp split: if_splits)
    then show ?thesis by (rule prefix_imp_sublist)
  qed
qed

lemma no_keyword_no_search:
  assumes "\<not> sublist ''expectTypeOf'' s" and "prefix ''expectTypeOf'' l"
  shows "\<not> re_search (Lit l # ps) s"
proof
  assume "re_search (Lit l # ps) s"
  then have "sublist l s" by (rule re_search_literal)
  moreover from assms(2) have "sublist ''expectTypeOf'' l" by (rule prefix_imp_sublist)
  ultimately have "sublist ''expectTypeOf'' s" by (rule sublist_order.order.trans[rotated])
  with assms(1) show False by contradiction
qed

lemma no_keyword_no_rule:
  assumes "\<not> sublist ''expectTypeOf'' s"
  shows "\<not> re_search all_pattern1 s" "\<not> re_search all_pattern2 s" "\<not> re_search all_pattern3 s"
    "\<not> re_search all_pattern4 s" "\<not> re_search all_pattern5 s" "\<not> re_search all_pattern6 s"
    "\<not> re_search remaining_pattern1 s" "\<not> re_search remaining_pattern2 s"
  unfolding all_rules_defs remaining_rules_defs
  by (rule no_keyword_no_search[OF assms], simp)+

lemma rewrite_all_no_match:
  assumes "\<not> re_search all_pattern1 s" "\<not> re_search all_pattern2 s" "\<not> re_search all_pattern3 s"
    "\<not> re_search all_pattern4 s" "\<not> re_search all_pattern5 s" "\<not> re_search all_pattern6 s"
  shows "rewrite_all s = s"
  unfolding rewrite_all_def Let_def by (simp add: assms re_sub_no_match)

lemma rewrite_remaining_no_match:
  assumes "\<not> re_search remaining_pattern1 s" "\<not> re_search remaining_pattern2 s"
  shows "rewrite_remaining s = s"
  unfolding rewrite_remaining_def Let_def by (simp add: assms re_sub_no_match)

lemma rewrite_all_example:
  "rewrite_all ''expectTypeOf<Foo>().toEqualTypeOf<Bar>()'' = ''Ts.Assert.exact.ofAs<Bar>().onAs<Foo>()''"
  by code_simp

lemma rewrite_remaining_example:
  "rewrite_remaining ''expectTypeOf<Foo>().toEqualTypeOf<Bar>()'' = ''Ts.Assert.exact.ofAs<Bar>().onAs<Foo>()''"
  by code_simp

lemma plain_text_no_rule:
  "\<not> re_search all_pattern1 ''const x = 1''" "\<not> re_search all_pattern2 ''const x = 1''"
  "\<not> re_search all_pattern3 ''const x = 1''" "\<not> re_search all_pattern4 ''const x = 1''"
  "\<not> re_search all_pattern5 ''const x = 1''" "\<not> re_search all_pattern6 ''const x = 1''"
  "\<not> re_search remaining_pattern1 ''const x = 1''" "\<not> re_search remaining_pattern2 ''const x = 1''"
  by code_simp+

section \<open>Facts about the two programs\<close>

lemma fix_file_console:
  "fix_file_all w p = Inr (b, w') \<Longrightarrow> console w' = console w @ [if b then Fixed p else No_changes p]"
  "fix_file_remaining w p = Inr (b, w') \<Longrightarrow> console w' = console w @ [if b then Fixed p else No_changes p]"
  by (auto simp: fix_file_all_def fix_file_remaining_def io_defs Let_def
      split: sum.splits option.splits if_splits)

lemma fix_file_disk_other:
  "fix_file_all w p = Inr (b, w') \<Longrightarrow> q \<noteq> p \<Longrightarrow> disk w' q = disk w q"
  "fix_file_remaining w p = Inr (b, w') \<Longrightarrow> q \<noteq> p \<Longrightarrow> disk w' q = disk w q"
  by (auto simp: fix_file_all_def fix_file_remaining_def io_defs Let_def
      split: sum.splits option.splits if_splits)

lemma fix_file_all_local:
  assumes "disk w1 p = disk w2 p"
  shows "outcome fix_file_all w1 p = outcome fix_file_all w2 p"
    and "returns_true fix_file_all w1 p = returns_true fix_file_all w2 p"
    and "file_after fix_file_all w1 p = file_after fix_file_all w2 p"
  using assms
  by (auto simp: outcome_def returns_true_def file_after_def fix_file_all_def io_defs Let_def
      split: sum.splits option.splits if_splits)

lemma fix_file_remaining_local:
  assumes "disk w1 p = disk w2 p"
  shows "outcome fix_file_remaining w1 p = outcome fix_file_remaining w2 p"
    and "returns_true fix_file_remaining w1 p = returns_true fix_file_remaining w2 p"
    and "file_after fix_file_remaining w1 p = file_after fix_file_remaining w2 p"
  using assms
  by (auto simp: outcome_def returns_true_def file_after_def fix_file_remaining_def io_defs Let_def
      split: sum.splits option.splits if_splits)

lemma outcome_error: "outcome fix_file w p = Error_processing p e \<longleftrightarrow> fix_file w p = Inl e"
  by (auto simp: outcome_def split: sum.splits if_splits prod.splits)

lemma outcome_returned:
  "fix_file w p = Inr (b, w') \<Longrightarrow> outcome fix_file w p = (if b then Fixed p else No_changes p)"
  "fix_file w p = Inr (b, w') \<Longrightarrow> returns_true fix_file w p = b"
  "fix_file w p = Inr (b, w') \<Longrightarrow> file_after fix_file w p = disk w' p"
  by (simp_all add: outcome_def returns_true_def file_after_def)

lemma run_all_step:
  "\<exists>w1. run_all (p # ps) w n =
      run_all ps w1 (n + (if returns_true fix_file_all w p then 1 else 0)) \<and>
    console w1 = console w @ [outcome fix_file_all w p] \<and>
    (\<forall>q. q \<noteq> p \<longrightarrow> disk w1 q = disk w q) \<and>
    disk w1 p = file_after fix_file_all w p"
proof (cases "fix_file_all w p")
  case (Inl e)
  let ?w1 = "print w (Error_processing p e)"
  have "run_all (p # ps) w n = run_all ps ?w1 (n + (if returns_true fix_file_all w p then 1 else 0))"
    using Inl by (simp add: returns_true_def)
  moreover have "console ?w1 = console w @ [outcome fix_file_all w p]"
    using Inl by (simp add: outcome_def print_def)
  moreover have "\<forall>q. q \<noteq> p \<longrightarrow> disk ?w1 q = disk w q" by (simp add: print_def)
  moreover have "disk ?w1 p = file_after fix_file_all w p"
    using Inl by (simp add: file_after_def print_def)
  ultimately show ?thesis by blast
next
  case (Inr r)
  obtain b w1 where "r = (b, w1)" by (cases r)
  with Inr have f: "fix_file_all w p = Inr (b, w1)" by simp
  have "run_all (p # ps) w n = run_all ps w1 (n + (if returns_true fix_file_all w p then 1 else 0))"
    using f by (cases b) (simp_all add: returns_true_def)
  moreover have "console w1 = console w @ [outcome fix_file_all w p]"
    using fix_file_console(1)[OF f] by (simp add: outcome_returned(1)[where fix_file=fix_file_all, OF f])
  moreover have "\<forall>q. q \<noteq> p \<longrightarrow> disk w1 q = disk w q"
    using fix_file_disk_other(1)[OF f] by blast
  moreover have "disk w1 p = file_after fix_file_all w p"
    by (simp add: outcome_returned(3)[where fix_file=fix_file_all, OF f])
  ultimately show ?thesis by blast
qed

lemma run_all_effect:
  "distinct ps \<Longrightarrow> run_all ps w n = (w', n') \<Longrightarrow>
     console w' = console w @ map (outcome fix_file_all w) ps \<and>
     n' = n + length (filter (returns_true fix_file_all w) ps) \<and>
     (\<forall>q. q \<notin> set ps \<longrightarrow> disk w' q = disk w q) \<and>
     (\<forall>q \<in> set ps. disk w' q = file_after fix_file_all w q)"
proof (induction ps arbitrary: w n)
  case Nil
  then show ?case by simp
next
  case (Cons p ps)
  from Cons.prems(1) have d: "distinct ps" and np: "p \<notin> set ps" by simp_all
  from run_all_step[of p ps w n] Cons.prems(2)
  obtain w1 where step: "run_all ps w1 (n + (if returns_true fix_file_all w p then 1 else 0)) = (w', n')"
    and w1: "console w1 = console w @ [outcome fix_file_all w p]"
    and other: "\<And>q. q \<noteq> p \<Longrightarrow> disk w1 q = disk w q"
    and self: "disk w1 p = file_after fix_file_all w p"
    by auto
  note IH = Cons.IH[OF d step]
  have same: "disk w1 q = disk w q" if "q \<in> set ps" for q
  proof -
    from that np have "q \<noteq> p" by blast
    then show ?thesis by (rule other)
  qed
  have m1: "map (outcome fix_file_all w1) ps = map (outcome fix_file_all w) ps"
    by (rule map_cong[OF refl]) (rule fix_file_all_local(1)[OF same])
  have m2: "filter (returns_true fix_file_all w1) ps = filter (returns_true fix_file_all w) ps"
    by (rule filter_cong[OF refl]) (rule fix_file_all_local(2)[OF same])
  have m3: "\<And>q. q \<in> set ps \<Longrightarrow> file_after fix_file_all w1 q = file_after fix_file_all w q"
    by (rule fix_file_all_local(3)[OF same])
  have c1: "console w' = console w @ map (outcome fix_file_all w) (p # ps)"
    using IH w1 m1 by simp
  have c2: "n' = n + length (filter (returns_true fix_file_all w) (p # ps))"
    using IH m2 by simp
  have c3: "\<forall>q. q \<notin> set (p # ps) \<longrightarrow> disk w' q = disk w q"
    using IH other by simp
  have c4: "\<forall>q \<in> set (p # ps). disk w' q = file_after fix_file_all w q"
    using IH self np m3 by auto
  from c1 c2 c3 c4 show ?case by blast
qed

lemma run_remaining_effect:
  "distinct ps \<Longrightarrow>
     (case run_remaining ps w n of
        Inr (w', n') \<Rightarrow>
          console w' = console w @ map (outcome fix_file_remaining w) ps \<and>
          n' = n + length (filter (returns_true fix_file_remaining w) ps) \<and>
          (\<forall>q \<in> set ps. \<forall>e. fix_file_remaining w q \<noteq> Inl e)
      | Inl (e, w') \<Rightarrow>
          (\<exists>done p rest. ps = done @ p # rest \<and> fix_file_remaining w p = Inl e \<and>
             console w' = console w @ map (outcome fix_file_remaining w) done \<and>
             (\<forall>q \<in> set (p # rest). disk w' q = disk w q)))"
proof (induction ps arbitrary: w n)
  case Nil
  then show ?case by simp
next
  case (Cons p ps)
  from Cons.prems have d: "distinct ps" and np: "p \<notin> set ps" by simp_all
  show ?case
  proof (cases "fix_file_remaining w p")
    case (Inl e)
    then have "run_remaining (p # ps) w n = Inl (e, w)" by simp
    moreover have "\<exists>done p' rest. p # ps = done @ p' # rest \<and> fix_file_remaining w p' = Inl e \<and>
             console w = console w @ map (outcome fix_file_remaining w) done \<and>
             (\<forall>q \<in> set (p' # rest). disk w q = disk w q)"
      using Inl by (intro exI[of _ "[]"] exI[of _ p] exI[of _ ps]) simp
    ultimately show ?thesis by simp
  next
    case (Inr r)
    obtain b w1 where "r = (b, w1)" by (cases r)
    with Inr have f: "fix_file_remaining w p = Inr (b, w1)" by simp
    let ?n1 = "if b then n + 1 else n"
    have run: "run_remaining (p # ps) w n = run_remaining ps w1 ?n1" using f by simp
    have w1: "console w1 = console w @ [outcome fix_file_remaining w p]"
      using fix_file_console(2)[OF f] by (simp add: outcome_returned(1)[where fix_file=fix_file_remaining, OF f])
    have same: "disk w1 q = disk w q" if "q \<in> set ps" for q
    proof -
      from that np have "q \<noteq> p" by blast
      then show ?thesis by (rule fix_file_disk_other(2)[OF f])
    qed
    have m1: "map (outcome fix_file_remaining w1) xs = map (outcome fix_file_remaining w) xs"
      if "set xs \<subseteq> set ps" for xs
      using that by (intro map_cong[OF refl] fix_file_remaining_local(1) same) blast
    have m2: "filter (returns_true fix_file_remaining w1) ps = filter (returns_true fix_file_remaining w) ps"
      by (rule filter_cong[OF refl]) (rule fix_file_remaining_local(2)[OF same])
    have m3: "fix_file_remaining w q = Inl e \<longleftrightarrow> fix_file_remaining w1 q = Inl e" if "q \<in> set ps" for q e
      using fix_file_remaining_local(1)[OF same[OF that]] outcome_error[of fix_file_remaining w q e]
        outcome_error[of fix_file_remaining w1 q e] by simp
    note IH = Cons.IH[OF d, of w1 ?n1]
    show ?thesis
    proof (cases "run_remaining ps w1 ?n1")
      case (Inl crash)
      obtain e w' where c: "crash = (e, w')" by (cases crash)
      with Inl IH obtain "done" p' rest where ps: "ps = done @ p' # rest"
        and e: "fix_file_remaining w1 p' = Inl e"
        and con: "console w' = console w1 @ map (outcome fix_file_remaining w1) done"
        and dk: "\<forall>q \<in> set (p' # rest). disk w' q = disk w1 q"
        by auto
      have "p # ps = (p # done) @ p' # rest" using ps by simp
      moreover have "fix_file_remaining w p' = Inl e" using e m3[of p' e] ps by simp
      moreover have "console w' = console w @ map (outcome fix_file_remaining w) (p # done)"
      proof -
        have "set done \<subseteq> set ps" using ps by auto
        from m1[OF this] con w1 show ?thesis by simp
      qed
      moreover have "\<forall>q \<in> set (p' # rest). disk w' q = disk w q"
        using dk same ps by simp
      ultimately have "\<exists>done p' rest. p # ps = done @ p' # rest \<and> fix_file_remaining w p' = Inl e \<and>
             console w' = console w @ map (outcome fix_file_remaining w) done \<and>
             (\<forall>q \<in> set (p' # rest). disk w' q = disk w q)"
        by blast
      with run Inl c show ?thesis by simp
    next
      case (Inr ok)
      obtain w' n' where o: "ok = (w', n')" by (cases ok)
      with Inr IH have con: "console w' = console w1 @ map (outcome fix_file_remaining w1) ps"
        and cnt: "n' = ?n1 + length (filter (returns_true fix_file_remaining w1) ps)"
        and noerr: "\<forall>q \<in> set ps. \<forall>e. fix_file_remaining w1 q \<noteq> Inl e"
        by auto
      have "console w' = console w @ map (outcome fix_file_remaining w) (p # ps)"
        using con w1 m1[of ps] by simp
      moreover have "n' = n + length (filter (returns_true fix_file_remaining w) (p # ps))"
        using cnt m2 by (simp add: outcome_returned(2)[where fix_file=fix_file_remaining, OF f])
      moreover have "\<forall>q \<in> set (p # ps). \<forall>e. fix_file_remaining w q \<noteq> Inl e"
        using noerr m3 f by simp
      ultimately show ?thesis using run Inr o by simp
    qed
  qed
qed

lemma distinct_files: "distinct files"
  by (simp add: files_def)

lemma fix_file_example:
  "\<exists>w'. fix_file_all example_world ''src/utils/mask/mask.test-d.ts'' = Inr (True, w')"
  "\<exists>w'. fix_file_remaining example_world ''src/utils/mask/mask.test-d.ts'' = Inr (True, w')"
  by (simp_all add: fix_file_all_def fix_file_remaining_def io_defs example_world_def
      rewrite_all_example rewrite_remaining_example Let_def)

lemma read_file_example:
  "read_file example_world ''src/utils/mask/mask.test-d.ts'' = Inr ''expectTypeOf<Foo>().toEqualTypeOf<Bar>()''"
  "read_file example_world ''src/utils/ts/print.test.ts'' = Inl FileNotFound"
  "read_file complete_world ''src/utils/err/try.test.ts'' = Inr ''expectTypeOf<Foo>().toEqualTypeOf<Bar>()''"
  by (simp_all add: read_file_def example_world_def complete_world_def)




section \<open>Facts about a single occurrence of the keyword\<close>
























section \<open>The properties\<close>

subsection \<open>The two examples of the specification\<close>

text \<open>
  Claim C2. For a file whose content is exactly \<^verbatim>\<open>expectTypeOf<Foo>().toEqualTypeOf<Bar>()\<close>,
  the rules of \<^verbatim>\<open>fix_file\<close> produce exactly \<^verbatim>\<open>Ts.Assert.exact.ofAs<Bar>().onAs<Foo>()\<close>, in
  \<^verbatim>\<open>fix-all-patterns.py\<close> and in \<^verbatim>\<open>fix-remaining.py\<close>.
\<close>

theorem type_only_example:
  "rewrite_all ''expectTypeOf<Foo>().toEqualTypeOf<Bar>()'' = ''Ts.Assert.exact.ofAs<Bar>().onAs<Foo>()'' \<and>
   rewrite_remaining ''expectTypeOf<Foo>().toEqualTypeOf<Bar>()'' = ''Ts.Assert.exact.ofAs<Bar>().onAs<Foo>()''"
  using rewrite_all_example rewrite_remaining_example by simp

text \<open>
  Claim C3 says that \<^verbatim>\<open>expectTypeOf(x).toEqualTypeOf(y)\<close> becomes
  \<^verbatim>\<open>Ts.Assert.exact.ofAs<typeof y>().on(x)\<close> in both scripts. \<^verbatim>\<open>fix-remaining.py\<close> has no rule for
  \<^verbatim>\<open>.toEqualTypeOf(\<close> with a value argument: its output is not that text.
\<close>

theorem two_values_example_remaining_differs:
  "rewrite_remaining ''expectTypeOf(x).toEqualTypeOf(y)'' \<noteq> ''Ts.Assert.exact.ofAs<typeof y>().on(x)''"
  by code_simp

text \<open>
  Claim C3, amended. For a file whose content is exactly \<^verbatim>\<open>expectTypeOf(x).toEqualTypeOf(y)\<close>,
  the rules of \<^verbatim>\<open>fix-all-patterns.py\<close> produce exactly \<^verbatim>\<open>Ts.Assert.exact.ofAs<typeof y>().on(x)\<close>;
  the rules of \<^verbatim>\<open>fix-remaining.py\<close>, which has only the two \<^verbatim>\<open>toEqualTypeOf<...>()\<close> rules,
  leave the content as it is.
\<close>

theorem two_values_example:
  "rewrite_all ''expectTypeOf(x).toEqualTypeOf(y)'' = ''Ts.Assert.exact.ofAs<typeof y>().on(x)'' \<and>
   rewrite_remaining ''expectTypeOf(x).toEqualTypeOf(y)'' = ''expectTypeOf(x).toEqualTypeOf(y)''"
  by code_simp

subsection \<open>Text without a match\<close>

text \<open>
  Claim C9. A content that does not contain \<^verbatim>\<open>expectTypeOf\<close> is returned unchanged by the
  rules of both scripts: every pattern starts with that literal.
\<close>

theorem rewrite_frame:
  assumes "\<not> sublist ''expectTypeOf'' content"
  shows "rewrite_all content = content \<and> rewrite_remaining content = content"
  using no_keyword_no_rule[OF assms] by (simp add: rewrite_all_no_match rewrite_remaining_no_match)

theorem rewrite_frame_witness:
  "\<not> sublist ''expectTypeOf'' ''const x = 1'' \<and>
   rewrite_all ''const x = 1'' = ''const x = 1'' \<and> rewrite_remaining ''const x = 1'' = ''const x = 1''"
proof -
  have h: "\<not> sublist ''expectTypeOf'' ''const x = 1''" by code_simp
  from h rewrite_frame[OF h] show ?thesis by simp
qed

text \<open>
  Claim C6. When no rule's pattern matches anywhere in the content read from a file, the
  rules return the content as it is, \<^verbatim>\<open>fix_file\<close> writes nothing (disk and record of writes
  are those of before), prints the \<^verbatim>\<open>No changes\<close> line for the file and returns \<^verbatim>\<open>False\<close>;
  for each script with its own rules.
\<close>

theorem no_match_no_change:
  assumes "read_file w filepath = Inr content"
  shows "(\<not> re_search all_pattern1 content \<and> \<not> re_search all_pattern2 content \<and>
          \<not> re_search all_pattern3 content \<and> \<not> re_search all_pattern4 content \<and>
          \<not> re_search all_pattern5 content \<and> \<not> re_search all_pattern6 content \<longrightarrow>
            rewrite_all content = content \<and>
            fix_file_all w filepath = Inr (False, w\<lparr>console := console w @ [No_changes filepath]\<rparr>)) \<and>
         (\<not> re_search remaining_pattern1 content \<and> \<not> re_search remaining_pattern2 content \<longrightarrow>
            rewrite_remaining content = content \<and>
            fix_file_remaining w filepath = Inr (False, w\<lparr>console := console w @ [No_changes filepath]\<rparr>))"
proof (intro conjI impI)
  assume "\<not> re_search all_pattern1 content \<and> \<not> re_search all_pattern2 content \<and>
          \<not> re_search all_pattern3 content \<and> \<not> re_search all_pattern4 content \<and>
          \<not> re_search all_pattern5 content \<and> \<not> re_search all_pattern6 content"
  then show r: "rewrite_all content = content" by (simp add: rewrite_all_no_match)
  show "fix_file_all w filepath = Inr (False, w\<lparr>console := console w @ [No_changes filepath]\<rparr>)"
    by (simp add: fix_file_all_def assms r print_def)
next
  assume "\<not> re_search remaining_pattern1 content \<and> \<not> re_search remaining_pattern2 content"
  then show r: "rewrite_remaining content = content" by (simp add: rewrite_remaining_no_match)
  show "fix_file_remaining w filepath = Inr (False, w\<lparr>console := console w @ [No_changes filepath]\<rparr>)"
    by (simp add: fix_file_remaining_def assms r print_def)
qed

theorem no_match_no_change_witness:
  "read_file example_world ''src/domains/str/match.test-d.ts'' = Inr ''const x = 1'' \<and>
   rewrite_all ''const x = 1'' = ''const x = 1'' \<and>
   fix_file_all example_world ''src/domains/str/match.test-d.ts'' =
     Inr (False, example_world\<lparr>console := console example_world @ [No_changes ''src/domains/str/match.test-d.ts'']\<rparr>) \<and>
   rewrite_remaining ''const x = 1'' = ''const x = 1'' \<and>
   fix_file_remaining example_world ''src/domains/str/match.test-d.ts'' =
     Inr (False, example_world\<lparr>console := console example_world @ [No_changes ''src/domains/str/match.test-d.ts'']\<rparr>)"
proof -
  have h: "read_file example_world ''src/domains/str/match.test-d.ts'' = Inr ''const x = 1''"
    by (simp add: read_file_def example_world_def)
  from h no_match_no_change[OF h] plain_text_no_rule show ?thesis by simp
qed

subsection \<open>The order of the rules\<close>

text \<open>
  Claim C7. \<^verbatim>\<open>fix_file\<close> of \<^verbatim>\<open>fix-all-patterns.py\<close> applies its six rules in the declared order,
  each to the output of the one before, and the order matters: for some content the same
  rules in another order give another result (here rules 5 and 6 exchanged, on a type-only
  assertion around a value assertion).
\<close>

theorem rule_order_matters:
  "rewrite_all content = apply_rules all_rules content \<and>
   (\<exists>rules c. mset rules = mset all_rules \<and> apply_rules rules c \<noteq> apply_rules all_rules c)"
proof
  show "rewrite_all content = apply_rules all_rules content"
    by (simp add: rewrite_all_def all_rules_def Let_def)
  let ?swapped = "[(all_pattern1, expand all_template1), (all_pattern2, expand all_template2),
      (all_pattern3, expand all_template3), (all_pattern4, expand all_template4),
      (all_pattern6, expand all_template6), (all_pattern5, expand all_template5)]"
  let ?c = "''expectTypeOf<expectTypeOf(x).toEqualTypeOf<B>().toEqualTypeOf<C>()''"
  have "mset ?swapped = mset all_rules" by (simp add: all_rules_def)
  moreover have "apply_rules ?swapped ?c = ''Ts.Assert.exact.ofAs<C>().onAs<Ts.Assert.exact.ofAs<B>().on(x)''"
    by code_simp
  moreover have "apply_rules all_rules ?c = ''expectTypeOf<Ts.Assert.exact.ofAs<B>().on(x).toEqualTypeOf<C>()''"
    by code_simp
  ultimately show "\<exists>rules c. mset rules = mset all_rules \<and> apply_rules rules c \<noteq> apply_rules all_rules c"
    by (intro exI[of _ ?swapped] exI[of _ ?c]) simp
qed

subsection \<open>One call of \<^verbatim>\<open>fix_file\<close>\<close>

text \<open>
  Claim C1. Whenever \<^verbatim>\<open>fix_file\<close> returns for a file, it has written the transformed content
  to the file's path if and only if that content differs from the content it read, and it
  returns \<^verbatim>\<open>True\<close> exactly when it has written: the record of writes grows by the one write
  of the transformed content to that path and the file holds it, or the record and the disk
  are left as they were; in both scripts.
\<close>

theorem fix_file_writes_iff_changed:
  "(fix_file_all w filepath = Inr (b, w') \<longrightarrow>
      (\<exists>original f. disk w filepath = Some f \<and> read_file w filepath = Inr original \<and>
         b = (rewrite_all original \<noteq> original) \<and>
         written w' = written w @ (if b then [(filepath, rewrite_all original)] else []) \<and>
         disk w' = (if b then (disk w)(filepath \<mapsto> f\<lparr>text_of := rewrite_all original\<rparr>) else disk w))) \<and>
   (fix_file_remaining w filepath = Inr (b, w') \<longrightarrow>
      (\<exists>original f. disk w filepath = Some f \<and> read_file w filepath = Inr original \<and>
         b = (rewrite_remaining original \<noteq> original) \<and>
         written w' = written w @ (if b then [(filepath, rewrite_remaining original)] else []) \<and>
         disk w' = (if b then (disk w)(filepath \<mapsto> f\<lparr>text_of := rewrite_remaining original\<rparr>) else disk w)))"
  by (auto simp: fix_file_all_def fix_file_remaining_def io_defs Let_def
      split: sum.splits option.splits if_splits)

theorem fix_file_writes_iff_changed_witness:
  "(\<exists>w'. fix_file_all example_world ''src/utils/mask/mask.test-d.ts'' = Inr (True, w') \<and>
      written w' = [(''src/utils/mask/mask.test-d.ts'', ''Ts.Assert.exact.ofAs<Bar>().onAs<Foo>()'')]) \<and>
   (\<exists>w'. fix_file_remaining example_world ''src/utils/mask/mask.test-d.ts'' = Inr (True, w') \<and>
      written w' = [(''src/utils/mask/mask.test-d.ts'', ''Ts.Assert.exact.ofAs<Bar>().onAs<Foo>()'')])"
proof -
  let ?p = "''src/utils/mask/mask.test-d.ts''"
  have e: "written example_world = []" by (simp add: example_world_def)
  from fix_file_example(1) obtain w1 where a: "fix_file_all example_world ?p = Inr (True, w1)" ..
  from fix_file_example(2) obtain w2 where b: "fix_file_remaining example_world ?p = Inr (True, w2)" ..
  from fix_file_writes_iff_changed[of example_world ?p True w1] a
  have "written w1 = [(?p, ''Ts.Assert.exact.ofAs<Bar>().onAs<Foo>()'')]"
    by (auto simp: read_file_example rewrite_all_example e)
  moreover from fix_file_writes_iff_changed[of example_world ?p True w2] b
  have "written w2 = [(?p, ''Ts.Assert.exact.ofAs<Bar>().onAs<Foo>()'')]"
    by (auto simp: read_file_example rewrite_remaining_example e)
  ultimately show ?thesis using a b by blast
qed

text \<open>
  Claim C10. What \<^verbatim>\<open>fix_file\<close> makes of a file depends on the content read and on nothing
  else: two calls that read the same content, in whatever worlds and under whatever paths,
  return the same boolean and leave the same text in their file, the rewritten content.
\<close>

theorem fix_file_depends_on_content_only:
  assumes "read_file w1 p1 = Inr content" and "read_file w2 p2 = Inr content"
  shows "(fix_file_all w1 p1 = Inr (b1, w1') \<and> fix_file_all w2 p2 = Inr (b2, w2') \<longrightarrow>
            b1 = b2 \<and> map_option text_of (disk w1' p1) = Some (rewrite_all content) \<and>
            map_option text_of (disk w2' p2) = Some (rewrite_all content)) \<and>
         (fix_file_remaining w1 p1 = Inr (b1, w1') \<and> fix_file_remaining w2 p2 = Inr (b2, w2') \<longrightarrow>
            b1 = b2 \<and> map_option text_of (disk w1' p1) = Some (rewrite_remaining content) \<and>
            map_option text_of (disk w2' p2) = Some (rewrite_remaining content))"
  using assms
  by (auto simp: fix_file_all_def fix_file_remaining_def io_defs Let_def
      split: sum.splits option.splits if_splits)

theorem fix_file_depends_on_content_only_witness:
  "(\<exists>w1' w2'. fix_file_all example_world ''src/utils/mask/mask.test-d.ts'' = Inr (True, w1') \<and>
      fix_file_all complete_world ''src/utils/err/try.test.ts'' = Inr (True, w2') \<and>
      map_option text_of (disk w1' ''src/utils/mask/mask.test-d.ts'') =
        Some ''Ts.Assert.exact.ofAs<Bar>().onAs<Foo>()'' \<and>
      map_option text_of (disk w2' ''src/utils/err/try.test.ts'') =
        Some ''Ts.Assert.exact.ofAs<Bar>().onAs<Foo>()'') \<and>
   (\<exists>w1' w2'. fix_file_remaining example_world ''src/utils/mask/mask.test-d.ts'' = Inr (True, w1') \<and>
      fix_file_remaining complete_world ''src/utils/err/try.test.ts'' = Inr (True, w2') \<and>
      map_option text_of (disk w1' ''src/utils/mask/mask.test-d.ts'') =
        Some ''Ts.Assert.exact.ofAs<Bar>().onAs<Foo>()'' \<and>
      map_option text_of (disk w2' ''src/utils/err/try.test.ts'') =
        Some ''Ts.Assert.exact.ofAs<Bar>().onAs<Foo>()'')"
proof -
  let ?p = "''src/utils/mask/mask.test-d.ts''" and ?q = "''src/utils/err/try.test.ts''"
  from fix_file_example(1) obtain w1 where a: "fix_file_all example_world ?p = Inr (True, w1)" ..
  from fix_file_example(2) obtain v1 where c: "fix_file_remaining example_world ?p = Inr (True, v1)" ..
  have "\<exists>w'. fix_file_all complete_world ?q = Inr (True, w')"
    by (simp add: fix_file_all_def io_defs complete_world_def rewrite_all_example Let_def)
  then obtain w2 where b: "fix_file_all complete_world ?q = Inr (True, w2)" ..
  have "\<exists>w'. fix_file_remaining complete_world ?q = Inr (True, w')"
    by (simp add: fix_file_remaining_def io_defs complete_world_def rewrite_remaining_example Let_def)
  then obtain v2 where d: "fix_file_remaining complete_world ?q = Inr (True, v2)" ..
  note t = fix_file_depends_on_content_only[OF read_file_example(1) read_file_example(3)]
  from t[of True w1 True w2] a b
  have "map_option text_of (disk w1 ?p) = Some ''Ts.Assert.exact.ofAs<Bar>().onAs<Foo>()''"
    "map_option text_of (disk w2 ?q) = Some ''Ts.Assert.exact.ofAs<Bar>().onAs<Foo>()''"
    by (simp_all add: rewrite_all_example)
  moreover from t[of True v1 True v2] c d
  have "map_option text_of (disk v1 ?p) = Some ''Ts.Assert.exact.ofAs<Bar>().onAs<Foo>()''"
    "map_option text_of (disk v2 ?q) = Some ''Ts.Assert.exact.ofAs<Bar>().onAs<Foo>()''"
    by (simp_all add: rewrite_remaining_example)
  ultimately show ?thesis using a b c d by blast
qed

subsection \<open>The whole run\<close>




text \<open>
  Claim C8 says that every listed file gets a \<^verbatim>\<open>Fixed\<close> or a \<^verbatim>\<open>No changes\<close> line. In
  \<^verbatim>\<open>fix-all-patterns.py\<close> a file that cannot be read gets neither, but an error line.
\<close>

theorem missing_file_gets_error_line:
  "console (main_all example_world) =
     [Error_processing ''src/utils/ts/print.test.ts'' FileNotFound,
      Fixed ''src/utils/mask/mask.test-d.ts'',
      No_changes ''src/domains/str/match.test-d.ts'',
      Error_processing ''src/utils/err/try.test.ts'' FileNotFound,
      Error_processing ''src/utils/sch/$.test-d.ts'' FileNotFound,
      Error_processing ''src/utils/ts/relation.test.ts'' FileNotFound,
      Error_processing ''src/utils/config-manager/ConfigManager.test.ts'' FileNotFound,
      Error_processing ''src/utils/fs/$.test.ts'' FileNotFound,
      Error_processing ''src/domains/group/$.test.ts'' FileNotFound,
      Error_processing ''src/domains/idx/$.test.ts'' FileNotFound,
      Error_processing ''src/domains/obj/filter.test-d.ts'' FileNotFound,
      Fixed_files 1]"
  by code_simp

text \<open>
  Claim C8, amended. \<^verbatim>\<open>fix-all-patterns.py\<close> prints one line for each listed file, in the
  order of the list: \<^verbatim>\<open>Fixed\<close> with the path when \<^verbatim>\<open>fix_file\<close> returned \<^verbatim>\<open>True\<close>, \<^verbatim>\<open>No changes\<close>
  when it returned \<^verbatim>\<open>False\<close>, the error line when it raised; then the summary, whose count
  is the number of files for which \<^verbatim>\<open>fix_file\<close> returned \<^verbatim>\<open>True\<close>. \<^verbatim>\<open>fix-remaining.py\<close> prints
  the same when its run reaches the end, and then every line is a \<^verbatim>\<open>Fixed\<close> or a
  \<^verbatim>\<open>No changes\<close> line.
\<close>

theorem console_report:
  "console (main_all w) =
     console w @ map (outcome fix_file_all w) files @
       [Fixed_files (length (filter (returns_true fix_file_all w) files))] \<and>
   (main_remaining w = Inr w' \<longrightarrow>
      console w' =
        console w @ map (outcome fix_file_remaining w) files @
          [Fixed_files (length (filter (returns_true fix_file_remaining w) files))] \<and>
      (\<forall>p. p \<in> set files \<longrightarrow> outcome fix_file_remaining w p \<in> {Fixed p, No_changes p}))"
proof
  obtain w1 n where run: "run_all files w 0 = (w1, n)" by (cases "run_all files w 0")
  from run_all_effect[OF distinct_files run]
  show "console (main_all w) =
     console w @ map (outcome fix_file_all w) files @
       [Fixed_files (length (filter (returns_true fix_file_all w) files))]"
    by (simp add: main_all_def run print_def)
  show "main_remaining w = Inr w' \<longrightarrow>
      console w' =
        console w @ map (outcome fix_file_remaining w) files @
          [Fixed_files (length (filter (returns_true fix_file_remaining w) files))] \<and>
      (\<forall>p. p \<in> set files \<longrightarrow> outcome fix_file_remaining w p \<in> {Fixed p, No_changes p})"
  proof
    assume m: "main_remaining w = Inr w'"
    then obtain w2 n2 where r: "run_remaining files w 0 = Inr (w2, n2)"
      and w': "w' = print w2 (Fixed_files n2)"
      by (auto simp: main_remaining_def split: sum.splits)
    from run_remaining_effect[OF distinct_files, of w 0] r
    have con: "console w2 = console w @ map (outcome fix_file_remaining w) files"
      and cnt: "n2 = length (filter (returns_true fix_file_remaining w) files)"
      and ok: "\<forall>q \<in> set files. \<forall>e. fix_file_remaining w q \<noteq> Inl e"
      by simp_all
    have "outcome fix_file_remaining w p \<in> {Fixed p, No_changes p}" if "p \<in> set files" for p
      using ok that by (auto simp: outcome_def split: sum.splits)
    with con cnt w' show "console w' =
        console w @ map (outcome fix_file_remaining w) files @
          [Fixed_files (length (filter (returns_true fix_file_remaining w) files))] \<and>
      (\<forall>p. p \<in> set files \<longrightarrow> outcome fix_file_remaining w p \<in> {Fixed p, No_changes p})"
      by (simp add: print_def)
  qed
qed

theorem console_report_witness:
  "\<exists>w'. main_remaining complete_world = Inr w' \<and>
     console w' =
       [No_changes ''src/utils/ts/print.test.ts'',
        Fixed ''src/utils/mask/mask.test-d.ts'',
        Fixed ''src/domains/str/match.test-d.ts'',
        Fixed ''src/utils/err/try.test.ts'',
        Fixed ''src/utils/sch/$.test-d.ts'',
        Fixed ''src/utils/ts/relation.test.ts'',
        Fixed ''src/utils/config-manager/ConfigManager.test.ts'',
        Fixed ''src/utils/fs/$.test.ts'',
        Fixed ''src/domains/group/$.test.ts'',
        Fixed ''src/domains/idx/$.test.ts'',
        Fixed ''src/domains/obj/filter.test-d.ts'',
        Fixed_files 10]"
proof -
  have "\<not> isl (main_remaining complete_world)" by code_simp
  then obtain w' where m: "main_remaining complete_world = Inr w'"
    by (cases "main_remaining complete_world") simp_all
  have c: "console complete_world = []" by (simp add: complete_world_def)
  have l: "map (outcome fix_file_remaining complete_world) files =
       [No_changes ''src/utils/ts/print.test.ts'',
        Fixed ''src/utils/mask/mask.test-d.ts'',
        Fixed ''src/domains/str/match.test-d.ts'',
        Fixed ''src/utils/err/try.test.ts'',
        Fixed ''src/utils/sch/$.test-d.ts'',
        Fixed ''src/utils/ts/relation.test.ts'',
        Fixed ''src/utils/config-manager/ConfigManager.test.ts'',
        Fixed ''src/utils/fs/$.test.ts'',
        Fixed ''src/domains/group/$.test.ts'',
        Fixed ''src/domains/idx/$.test.ts'',
        Fixed ''src/domains/obj/filter.test-d.ts'']"
    by code_simp
  have n: "length (filter (returns_true fix_file_remaining complete_world) files) = 10"
    by code_simp
  from console_report[of complete_world w'] m have "console w' =
        console complete_world @ map (outcome fix_file_remaining complete_world) files @
          [Fixed_files (length (filter (returns_true fix_file_remaining complete_world) files))]"
    by blast
  with m show ?thesis unfolding c l n by simp
qed

subsection \<open>Running the rewrite twice\<close>




end
